theory Spec2Isabelle
  imports Main "HOL-Library.Word" "HOL-Library.Countable"
begin

unbundle bit_operations_syntax

section \<open>Shared data: buffers, errors, effects\<close>

text \<open>
  A Node \<open>Buffer\<close> is a list of bytes. JavaScript numbers that the code handles as
  unsigned integers are natural numbers; the range checks of the \<open>Buffer\<close> write and
  read methods are written out, since these are the places where the code can throw.
\<close>

type_synonym byte = "8 word"
type_synonym buffer = "byte list"

datatype error =
    Error string      \<comment> \<open>\<open>new Error(message)\<close>\<close>
  | TypeError         \<comment> \<open>an argument of the wrong type, or a property read of \<open>undefined\<close>\<close>
  | RangeError        \<comment> \<open>\<open>ERR_OUT_OF_RANGE\<close> of the \<open>Buffer\<close> accessors\<close>
  | SyntaxError       \<comment> \<open>\<open>JSON.parse\<close> on text that is not JSON\<close>

section \<open>CryptoManager\<close>

subsection \<open>JavaScript values and JSON documents\<close>

text \<open>
  The values the manager serialises: JSON data and Node Buffers. \<open>JSON.stringify\<close>
  calls a Buffer's \<open>toJSON\<close>, which yields the object
  \<open>{type: 'Buffer', data: [...]}\<close>; \<open>JSON.parse\<close> is called without a reviver, so what
  it returns never holds a Buffer. The two types keep this apart: \<open>jsval\<close> is what
  the code builds, \<open>json\<close> is what a JSON text denotes.
\<close>

datatype json =
    JNull | JBool bool | JNum int | JStr string
  | JArr "json list" | JObj "(string \<times> json) list"

datatype jsval =
    VNull | VBool bool | VNum int | VStr string
  | VArr "jsval list" | VObj "(string \<times> jsval) list"
  | VBuffer buffer

fun toJSON :: "jsval \<Rightarrow> json" where
  "toJSON VNull = JNull"
| "toJSON (VBool b) = JBool b"
| "toJSON (VNum n) = JNum n"
| "toJSON (VStr s) = JStr s"
| "toJSON (VArr xs) = JArr (map toJSON xs)"
| "toJSON (VObj kvs) = JObj (map (\<lambda>kv. (fst kv, toJSON (snd kv))) kvs)"
| "toJSON (VBuffer b) =
     JObj [(''type'', JStr ''Buffer''), (''data'', JArr (map (\<lambda>x. JNum (uint x)) b))]"

text \<open>
  Reading a property of a parsed value that is neither \<open>null\<close> nor \<open>undefined\<close>,
  for the property names the code reads (none of them is a built-in property of a
  string, number, boolean or array): an object yields the property or \<open>undefined\<close>
  (\<open>None\<close>), any other value yields \<open>undefined\<close>. Reading a property of \<open>null\<close>
  or \<open>undefined\<close> throws a \<open>TypeError\<close>.
\<close>

fun lookup :: "json \<Rightarrow> string \<Rightarrow> json option" where
  "lookup (JObj kvs) k = map_of kvs k"
| "lookup v k = None"

definition property :: "json option \<Rightarrow> string \<Rightarrow> error + json option" where
  "property v k =
     (case v of
        None \<Rightarrow> Inl TypeError
      | Some d \<Rightarrow> if d = JNull then Inl TypeError else Inr (lookup d k))"

subsection \<open>The primitives of Node's runtime\<close>

text \<open>
  The cipher, the MAC, the JSON printer and parser and the base64 encoder belong to
  Node, not to this repository; the manager is modelled over any choice of them.
  \<^item> \<open>aes_encrypt k t\<close>: \<open>createCipher('aes-256-cbc', k)\<close>, then \<open>update(t, 'utf8',
    'base64')\<close> and \<open>final('base64')\<close>. The key and the IV are derived from the
    password \<open>k\<close> alone, so the result is a function of \<open>k\<close> and \<open>t\<close>.
  \<^item> \<open>aes_decrypt k c\<close>: \<open>createDecipher('aes-256-cbc', k)\<close>, then \<open>update(c, 'base64',
    'utf8')\<close> and \<open>final('utf8')\<close>; \<open>None\<close> when \<open>final\<close> throws.
  \<^item> \<open>hmac_sha256 k t\<close>: \<open>createHmac('sha256', k).update(t).digest('hex')\<close>.
  \<^item> \<open>json_text d\<close>: the text \<open>JSON.stringify\<close> writes for the document \<open>d\<close>;
    \<open>json_value s\<close>: the document \<open>JSON.parse\<close> reads from \<open>s\<close>, \<open>None\<close> when it
    throws.
  \<^item> \<open>base64 b\<close>: \<open>b.toString('base64')\<close>.
\<close>

datatype password = PBuffer buffer | PString string

record prims =
  aes_encrypt :: "password \<Rightarrow> string \<Rightarrow> string"
  aes_decrypt :: "password \<Rightarrow> string \<Rightarrow> string option"
  hmac_sha256 :: "buffer \<Rightarrow> string \<Rightarrow> string"
  json_text :: "json \<Rightarrow> string"
  json_value :: "string \<Rightarrow> json option"
  base64 :: "buffer \<Rightarrow> string"

definition JSON_stringify :: "prims \<Rightarrow> jsval \<Rightarrow> string" where
  "JSON_stringify P v = json_text P (toJSON v)"

definition JSON_parse :: "prims \<Rightarrow> string \<Rightarrow> error + json" where
  "JSON_parse P s = (case json_value P s of None \<Rightarrow> Inl SyntaxError | Some d \<Rightarrow> Inr d)"

subsection \<open>Sessions\<close>

record session =
  sessionId :: string
  recipientId :: string
  rootKey :: buffer
  chainKey :: buffer
  messageCount :: nat
  timestamp :: nat

type_synonym sessionStore = "string \<rightharpoonup> session"

text \<open>
  What \<open>crypto.randomBytes\<close>, \<open>Math.random\<close> and \<open>Date.now\<close> return during one call of
  \<open>encryptMessage\<close>, in the order the code asks for them. The first four are used only
  when the call creates the session.
\<close>

record entropy =
  newSessionId :: string
  newRootKey :: buffer
  newChainKey :: buffer
  sessionCreated :: nat
  newMessageKey :: buffer
  contentIv :: buffer
  newMessageId :: nat
  envelopeCreated :: nat
  envelopeIv :: buffer

definition createSession :: "string \<Rightarrow> entropy \<Rightarrow> session" where
  "createSession recipient r =
     \<lparr>sessionId = newSessionId r, recipientId = recipient, rootKey = newRootKey r,
      chainKey = newChainKey r, messageCount = 0, timestamp = sessionCreated r\<rparr>"

definition getOrCreateSession ::
    "sessionStore \<Rightarrow> string \<Rightarrow> entropy \<Rightarrow> session \<times> sessionStore" where
  "getOrCreateSession store recipient r =
     (case store recipient of
        Some session \<Rightarrow> (session, store)
      | None \<Rightarrow>
          let session = createSession recipient r
          in (session, store(recipient \<mapsto> session)))"

definition getSession :: "sessionStore \<Rightarrow> string \<Rightarrow> session option" where
  "getSession store recipient = store recipient"

subsection \<open>Encryption\<close>

record encryptedEnvelope =
  iv :: string
  ciphertext :: string
  signature :: string

definition encryptContent :: "prims \<Rightarrow> jsval \<Rightarrow> buffer \<Rightarrow> buffer \<Rightarrow> jsval" where
  "encryptContent P content messageKey ivBytes =
     (let encrypted = aes_encrypt P (PBuffer messageKey) (JSON_stringify P content)
      in VObj [(''iv'', VStr (base64 P ivBytes)), (''ciphertext'', VStr encrypted)])"

definition encryptEnvelope ::
    "prims \<Rightarrow> jsval \<Rightarrow> session \<Rightarrow> buffer \<Rightarrow> encryptedEnvelope" where
  "encryptEnvelope P envelope session ivBytes =
     (let envelopeData = JSON_stringify P envelope;
          encrypted = aes_encrypt P (PBuffer (chainKey session)) envelopeData;
          signature = hmac_sha256 P (chainKey session) encrypted
      in \<lparr>iv = base64 P ivBytes, ciphertext = encrypted, signature = signature\<rparr>)"

definition encryptMessage ::
    "prims \<Rightarrow> sessionStore \<Rightarrow> string \<Rightarrow> jsval \<Rightarrow> string \<Rightarrow> entropy
       \<Rightarrow> encryptedEnvelope \<times> sessionStore" where
  "encryptMessage P store recipient message messageType r =
     (case getOrCreateSession store recipient r of
        (session, store') \<Rightarrow>
          let messageKey = newMessageKey r;
              encryptedContent = encryptContent P message messageKey (contentIv r);
              envelope = VObj [(''type'', VStr messageType),
                               (''recipientId'', VStr recipient),
                               (''messageId'', VNum (int (newMessageId r))),
                               (''timestamp'', VNum (int (envelopeCreated r))),
                               (''encryptedContent'', encryptedContent),
                               (''messageKey'', VBuffer messageKey),
                               (''sessionId'', VStr (sessionId session))]
          in (encryptEnvelope P envelope session (envelopeIv r), store'))"

text \<open>A sequence of \<open>encryptMessage\<close> calls for one recipient on the same store.\<close>

fun encryptMessages ::
    "prims \<Rightarrow> sessionStore \<Rightarrow> string \<Rightarrow> (jsval \<times> string \<times> entropy) list
       \<Rightarrow> encryptedEnvelope list \<times> sessionStore" where
  "encryptMessages P store recipient [] = ([], store)"
| "encryptMessages P store recipient ((message, messageType, r) # calls) =
     (case encryptMessage P store recipient message messageType r of
        (e, store') \<Rightarrow>
          (case encryptMessages P store' recipient calls of
             (es, store'') \<Rightarrow> (e # es, store'')))"

subsection \<open>Decryption\<close>

definition decryptEnvelope :: "prims \<Rightarrow> encryptedEnvelope \<Rightarrow> session \<Rightarrow> error + json" where
  "decryptEnvelope P e session =
     (let expectedSignature = hmac_sha256 P (chainKey session) (ciphertext e)
      in if expectedSignature \<noteq> signature e then Inl (Error ''Invalid message signature'')
         else
           (case aes_decrypt P (PBuffer (chainKey session)) (ciphertext e) of
              None \<Rightarrow> Inl (Error ''bad decrypt'')
            | Some decrypted \<Rightarrow> JSON_parse P decrypted))"

text \<open>
  \<open>decryptContent(encryptedContent, messageKey)\<close> on parsed values, \<open>None\<close> being
  \<open>undefined\<close>. \<open>createDecipher\<close> takes a string (or a Buffer, which a parsed value
  never is) as password and throws a \<open>TypeError\<close> on anything else; then
  \<open>encryptedContent.ciphertext\<close> is read and must be a string for \<open>update\<close>.
\<close>

definition decryptContent :: "prims \<Rightarrow> json option \<Rightarrow> json option \<Rightarrow> error + json" where
  "decryptContent P encryptedContent messageKey =
     (case messageKey of
        Some (JStr k) \<Rightarrow>
          (case property encryptedContent ''ciphertext'' of
             Inl err \<Rightarrow> Inl err
           | Inr (Some (JStr c)) \<Rightarrow>
               (case aes_decrypt P (PString k) c of
                  None \<Rightarrow> Inl (Error ''bad decrypt'')
                | Some decrypted \<Rightarrow> JSON_parse P decrypted)
           | Inr _ \<Rightarrow> Inl TypeError)
      | _ \<Rightarrow> Inl TypeError)"

record decrypted =
  senderId :: string
  messageId :: "json option"
  timestamp :: "json option"
  type :: "json option"
  content :: json

definition decryptMessage ::
    "prims \<Rightarrow> sessionStore \<Rightarrow> string \<Rightarrow> encryptedEnvelope \<Rightarrow> error + decrypted" where
  "decryptMessage P store sender e =
     (case getSession store sender of
        None \<Rightarrow> Inl (Error ''No session found with sender'')
      | Some session \<Rightarrow>
          (case decryptEnvelope P e session of
             Inl err \<Rightarrow> Inl err
           | Inr envelope \<Rightarrow>
               if envelope = JNull then Inl TypeError
               else
                 (case decryptContent P (lookup envelope ''encryptedContent'')
                         (lookup envelope ''messageKey'') of
                    Inl err \<Rightarrow> Inl err
                  | Inr message \<Rightarrow>
                      Inr \<lparr>senderId = sender,
                           messageId = lookup envelope ''messageId'',
                           timestamp = lookup envelope ''timestamp'',
                           type = lookup envelope ''type'',
                           content = message\<rparr>)))"

subsection \<open>Tampering with a string\<close>

text \<open>Flipping bit \<open>b\<close> of the character at position \<open>p\<close> of a string.\<close>

definition flip_char :: "nat \<Rightarrow> char \<Rightarrow> char" where
  "flip_char b c = char_of (flip_bit b (of_char c :: nat))"

definition flip_bit_at :: "nat \<Rightarrow> nat \<Rightarrow> string \<Rightarrow> string" where
  "flip_bit_at p b s = s[p := flip_char b (s ! p)]"

subsection \<open>A stand-in for the runtime's primitives\<close>

text \<open>
  A choice of primitives under which decryption inverts encryption, parsing inverts
  printing and the MAC has no collisions, to instantiate the theorems below: the cipher
  prefixes a marker, the MAC is the text itself, and a document is printed as a run of
  as many characters as its code in an enumeration of all documents.
\<close>

instance json :: countable
  by countable_datatype

definition stand_in :: prims where
  "stand_in =
     \<lparr>aes_encrypt = (\<lambda>k t. CHR ''E'' # t),
      aes_decrypt = (\<lambda>k c. case c of [] \<Rightarrow> None
                                | x # t \<Rightarrow> if x = CHR ''E'' then Some t else None),
      hmac_sha256 = (\<lambda>k t. t),
      json_text = (\<lambda>d. replicate (to_nat d) CHR ''j''),
      json_value = (\<lambda>s. Some (from_nat (length s))),
      base64 = (\<lambda>b. map (\<lambda>x. char_of (unat x)) b)\<rparr>"

definition sample_entropy :: entropy where
  "sample_entropy =
     \<lparr>newSessionId = ''000102030405060708090a0b0c0d0e0f'',
      newRootKey = replicate 32 1, newChainKey = replicate 32 2,
      sessionCreated = 1700000000000,
      newMessageKey = replicate 32 3, contentIv = replicate 16 4, newMessageId = 5,
      envelopeCreated = 1700000000001, envelopeIv = replicate 16 6\<rparr>"

text \<open>
  The envelope and the store that the first \<open>encryptMessage\<close> call for a peer leaves,
  under the stand-in primitives.
\<close>

definition sample_envelope :: encryptedEnvelope where
  "sample_envelope =
     fst (encryptMessage stand_in Map.empty ''+1234567891'' (VStr ''hi'') ''text''
            sample_entropy)"

definition sample_store :: sessionStore where
  "sample_store =
     snd (encryptMessage stand_in Map.empty ''+1234567891'' (VStr ''hi'') ''text''
            sample_entropy)"

section \<open>TransportManager\<close>

subsection \<open>The Buffer accessors used by the transport\<close>

definition writeUInt8 :: "nat \<Rightarrow> error + buffer" where
  "writeUInt8 v = (if v > 255 then Inl RangeError else Inr [of_nat v])"

definition writeUInt16BE :: "nat \<Rightarrow> error + buffer" where
  "writeUInt16BE v =
     (if v > 65535 then Inl RangeError
      else Inr [of_nat (v div 256), of_nat (v mod 256)])"

definition writeUInt32BE :: "nat \<Rightarrow> error + buffer" where
  "writeUInt32BE v =
     (if v > 4294967295 then Inl RangeError
      else Inr [of_nat (v div 16777216), of_nat (v div 65536 mod 256),
                of_nat (v div 256 mod 256), of_nat (v mod 256)])"

definition readUInt8 :: "buffer \<Rightarrow> nat \<Rightarrow> error + nat" where
  "readUInt8 b off =
     (if off + 1 > length b then Inl RangeError else Inr (unat (b ! off)))"

definition readUInt16BE :: "buffer \<Rightarrow> nat \<Rightarrow> error + nat" where
  "readUInt16BE b off =
     (if off + 2 > length b then Inl RangeError
      else Inr (unat (b ! off) * 256 + unat (b ! (off + 1))))"

definition readUInt32BE :: "buffer \<Rightarrow> nat \<Rightarrow> error + nat" where
  "readUInt32BE b off =
     (if off + 4 > length b then Inl RangeError
      else Inr (unat (b ! off) * 16777216 + unat (b ! (off + 1)) * 65536
                + unat (b ! (off + 2)) * 256 + unat (b ! (off + 3))))"

text \<open>\<open>buf.slice(start, end)\<close> and \<open>buf.slice(start)\<close>; both clamp to the buffer.\<close>

definition slice :: "buffer \<Rightarrow> nat \<Rightarrow> nat \<Rightarrow> buffer" where
  "slice b start end' = take (end' - start) (drop start b)"

definition slice_from :: "buffer \<Rightarrow> nat \<Rightarrow> buffer" where
  "slice_from b start = drop start b"

subsection \<open>The manager and what it does to the outside\<close>

record message =
  type :: nat
  id' :: nat
  timestamp :: nat
  data :: buffer

text \<open>
  What a call does to the outside: events emitted on the manager, bytes written to the
  socket, and the timer that \<open>attemptReconnect\<close> sets for the next \<open>connect\<close>.
\<close>

datatype argument = NoArgument | Message message | Failure error

datatype effect =
    Emit string argument
  | SocketWrite buffer
  | SetTimeoutConnect nat

record transport =
  hasSocket :: bool
  isConnected :: bool
  reconnectAttempts :: nat
  maxReconnectAttempts :: nat
  reconnectDelay :: nat
  heartbeatRunning :: bool
  buffer :: buffer

definition constructor :: transport where
  "constructor =
     \<lparr>hasSocket = False, isConnected = False, reconnectAttempts = 0,
      maxReconnectAttempts = 5, reconnectDelay = 1000, heartbeatRunning = False,
      buffer = []\<rparr>"

text \<open>The successful path of \<open>connect\<close>, after the socket's \<open>connect\<close> event.\<close>

definition connect_resolved :: "transport \<Rightarrow> transport \<times> effect list" where
  "connect_resolved t =
     (t\<lparr>hasSocket := True, isConnected := True, reconnectAttempts := 0,
        heartbeatRunning := True\<rparr>,
      [Emit ''transport:connected'' NoArgument])"

subsection \<open>Incoming data\<close>

definition decodeMessage :: "buffer \<Rightarrow> message option" where
  "decodeMessage d =
     (case readUInt8 d 0 of
        Inl e \<Rightarrow> None
      | Inr ty \<Rightarrow>
          (case readUInt32BE d 1 of
             Inl e \<Rightarrow> None
           | Inr i \<Rightarrow>
               (case readUInt32BE d 5 of
                  Inl e \<Rightarrow> None
                | Inr ts \<Rightarrow>
                    Some \<lparr>type = ty, id' = i, timestamp = ts, data = slice_from d 9\<rparr>)))"

definition parseMessage :: "transport \<Rightarrow> error + (message option \<times> transport)" where
  "parseMessage t =
     (if length (buffer t) < 3 then Inr (None, t)
      else
        (case readUInt16BE (buffer t) 0 of
           Inl e \<Rightarrow> Inl e
         | Inr len \<Rightarrow>
             if length (buffer t) < len + 2 then Inr (None, t)
             else
               let message = slice (buffer t) 2 (len + 2);
                   t' = t\<lparr>buffer := slice_from (buffer t) (len + 2)\<rparr>
               in Inr (decodeMessage message, t')))"

definition handleMessage :: "message \<Rightarrow> effect list" where
  "handleMessage m =
     (if type m = 1 then [Emit ''message:text'' (Message m)]
      else if type m = 2 then [Emit ''message:media'' (Message m)]
      else if type m = 3 then [Emit ''message:group'' (Message m)]
      else if type m = 4 then [Emit ''presence:update'' (Message m)]
      else if type m = 5 then [Emit ''typing:indicator'' (Message m)]
      else if type m = 6 then [Emit ''receipt:read'' (Message m)]
      else if type m = 7 then [Emit ''receipt:delivered'' (Message m)]
      else if type m = 8 then [Emit ''heartbeat:response'' (Message m)]
      else [])"

text \<open>
  The \<open>while\<close> loop of \<open>handleIncomingData\<close>. It returns the manager, the messages it
  passed to \<open>handleMessage\<close> in order, and the error that left the loop, if one did.
\<close>

function process_buffer :: "transport \<Rightarrow> transport \<times> message list \<times> error option" where
  "process_buffer t =
     (if length (buffer t) > 0 then
        (case parseMessage t of
           Inl e \<Rightarrow> (t, [], Some e)
         | Inr (None, t') \<Rightarrow> (t', [], None)
         | Inr (Some m, t') \<Rightarrow>
             (case process_buffer t' of (t'', ms, err) \<Rightarrow> (t'', m # ms, err)))
      else (t, [], None))"
  by pat_completeness auto

termination process_buffer
proof (relation "measure (\<lambda>t. length (buffer t))")
  show "wf (measure (\<lambda>t. length (buffer t)))" by simp
next
  fix t :: transport and r p t' m
  assume "0 < length (buffer t)" and "parseMessage t = Inr r"
    and "(p, t') = r" and "p = Some m"
  then have "length (buffer t') < length (buffer t)"
    by (auto simp: parseMessage_def slice_from_def Let_def
             split: if_splits sum.splits)
  then show "(t', t) \<in> measure (\<lambda>t. length (buffer t))" by simp
qed

declare process_buffer.simps [simp del]

definition handleIncomingData ::
    "transport \<Rightarrow> buffer \<Rightarrow> transport \<times> message list \<times> effect list" where
  "handleIncomingData t chunk =
     (case process_buffer (t\<lparr>buffer := buffer t @ chunk\<rparr>) of
        (t', ms, err) \<Rightarrow>
          (t', ms,
           concat (map handleMessage ms)
             @ (case err of None \<Rightarrow> [] | Some e \<Rightarrow> [Emit ''transport:error'' (Failure e)])))"

text \<open>Successive \<open>data\<close> events of the socket.\<close>

fun feed :: "transport \<Rightarrow> buffer list \<Rightarrow> transport \<times> message list \<times> effect list" where
  "feed t [] = (t, [], [])"
| "feed t (c # cs) =
     (case handleIncomingData t c of
        (t', ms, fx) \<Rightarrow>
          (case feed t' cs of (t'', ms', fx') \<Rightarrow> (t'', ms @ ms', fx @ fx')))"

subsection \<open>Sending\<close>

text \<open>
  \<open>sendMessage(type, data, id = null)\<close>. \<open>now\<close> is the value of \<open>Date.now()\<close> and
  \<open>generated\<close> the value \<open>generateMessageId()\<close> returns when it is called. \<open>id ||
  generateMessageId()\<close> takes the generated id for \<open>null\<close> and for \<open>0\<close>.
\<close>

definition sendMessage ::
    "transport \<Rightarrow> nat \<Rightarrow> buffer \<Rightarrow> nat option \<Rightarrow> nat \<Rightarrow> nat
       \<Rightarrow> (error + nat) \<times> transport \<times> effect list" where
  "sendMessage t ty payload ident now generated =
     (if \<not> isConnected t \<or> \<not> hasSocket t then
        (Inl (Error ''Not connected to server''), t, [])
      else
        let messageId = (case ident of
                           None \<Rightarrow> generated
                         | Some i \<Rightarrow> if i = 0 then generated else i);
            timestamp = now div 1000
        in
          (case writeUInt8 ty of
             Inl e \<Rightarrow> (Inl e, t, [])
           | Inr b0 \<Rightarrow>
               (case writeUInt32BE messageId of
                  Inl e \<Rightarrow> (Inl e, t, [])
                | Inr b1 \<Rightarrow>
                    (case writeUInt32BE timestamp of
                       Inl e \<Rightarrow> (Inl e, t, [])
                     | Inr b5 \<Rightarrow>
                         let messageBuffer = b0 @ b1 @ b5 @ payload in
                           (case writeUInt16BE (length messageBuffer) of
                              Inl e \<Rightarrow> (Inl e, t, [])
                            | Inr lengthBuffer \<Rightarrow>
                                (Inr messageId, t,
                                 [SocketWrite (lengthBuffer @ messageBuffer)]))))))"

subsection \<open>Reconnection\<close>

definition attemptReconnect :: "transport \<Rightarrow> transport \<times> effect list" where
  "attemptReconnect t =
     (if reconnectAttempts t \<ge> maxReconnectAttempts t then
        (t, [Emit ''transport:max_reconnect_attempts'' NoArgument])
      else
        let t' = t\<lparr>reconnectAttempts := reconnectAttempts t + 1\<rparr>;
            delay = reconnectDelay t' * 2 ^ (reconnectAttempts t' - 1)
        in (t', [SetTimeoutConnect delay]))"

definition handleConnectionError :: "transport \<Rightarrow> error \<Rightarrow> transport \<times> effect list" where
  "handleConnectionError t e =
     (case attemptReconnect (t\<lparr>isConnected := False\<rparr>) of
        (t', fx) \<Rightarrow> (t', Emit ''transport:error'' (Failure e) # fx))"

definition handleConnectionClose :: "transport \<Rightarrow> transport \<times> effect list" where
  "handleConnectionClose t =
     (case attemptReconnect (t\<lparr>isConnected := False\<rparr>) of
        (t', fx) \<Rightarrow> (t', Emit ''transport:disconnected'' NoArgument # fx))"

text \<open>
  A connection failure reaches the manager as the socket's \<open>error\<close> event or as its
  \<open>close\<close> or \<open>end\<close> event; \<open>failures\<close> is a run of them, with what each one does.
\<close>

datatype failure = OnError error | OnClose

definition handleFailure :: "transport \<Rightarrow> failure \<Rightarrow> transport \<times> effect list" where
  "handleFailure t f =
     (case f of
        OnError e \<Rightarrow> handleConnectionError t e
      | OnClose \<Rightarrow> handleConnectionClose t)"

fun failures :: "transport \<Rightarrow> failure list \<Rightarrow> transport \<times> effect list list" where
  "failures t [] = (t, [])"
| "failures t (f # fs) =
     (case handleFailure t f of
        (t', fx) \<Rightarrow> (case failures t' fs of (t'', fxs) \<Rightarrow> (t'', fx # fxs)))"

text \<open>The delays of the reconnection timers among some effects.\<close>

definition timers :: "effect list \<Rightarrow> nat list" where
  "timers fx = concat (map (\<lambda>x. case x of SetTimeoutConnect d \<Rightarrow> [d] | _ \<Rightarrow> []) fx)"

section \<open>The wire format of the specification\<close>

text \<open>
  The frame layout as the specification's external-interfaces table words it, to be
  compared with what \<open>sendMessage\<close> writes: a 2-byte big-endian length prefix
  equal to 9 plus the payload length, a 1-byte type, a 4-byte big-endian id, a 4-byte
  big-endian timestamp in seconds, then the payload.
\<close>

definition wire_format :: "nat \<Rightarrow> nat \<Rightarrow> nat \<Rightarrow> buffer \<Rightarrow> buffer" where
  "wire_format ty i ts payload =
     [of_nat ((9 + length payload) div 256), of_nat ((9 + length payload) mod 256)]
     @ [of_nat ty]
     @ [of_nat (i div 16777216), of_nat (i div 65536 mod 256),
        of_nat (i div 256 mod 256), of_nat (i mod 256)]
     @ [of_nat (ts div 16777216), of_nat (ts div 65536 mod 256),
        of_nat (ts div 256 mod 256), of_nat (ts mod 256)]
     @ payload"

section \<open>Frames on the wire\<close>

lemma unat_byte: "n < 256 \<Longrightarrow> unat (of_nat n :: byte) = n"
  by (simp add: unat_of_nat)

lemma split32:
  fixes v :: nat
  shows "v div 16777216 * 16777216 + v div 65536 mod 256 * 65536
           + v div 256 mod 256 * 256 + v mod 256 = v"
proof -
  have a: "v div 256 mod 256 * 256 + v mod 256 = v mod 65536"
    by (simp add: mod_mult2_eq[of v 256 256, simplified] algebra_simps)
  have b: "v div 65536 mod 256 * 65536 + v mod 65536 = v mod 16777216"
    using mod_mult2_eq[of v 65536 256] by (simp add: algebra_simps)
  have c: "v div 16777216 * 16777216 + v mod 16777216 = v"
    by simp
  from a b c show ?thesis by linarith
qed

lemma read16_bytes:
  "v \<le> 65535 \<Longrightarrow> readUInt16BE (of_nat (v div 256) # of_nat (v mod 256) # rest) 0 = Inr v"
  by (simp add: readUInt16BE_def unat_byte less_mult_imp_div_less)

lemma read32_bytes:
  assumes "v \<le> 4294967295" and "length pre = off"
  shows "readUInt32BE (pre @ of_nat (v div 16777216) # of_nat (v div 65536 mod 256)
            # of_nat (v div 256 mod 256) # of_nat (v mod 256) # rest) off = Inr v"
proof -
  have "v div 16777216 < 256" using assms(1) by (simp add: less_mult_imp_div_less)
  then show ?thesis
    using assms(2) split32[of v]
    by (simp add: readUInt32BE_def unat_byte nth_append)
qed

lemma length_wire_format [simp]:
  "length (wire_format ty i ts payload) = 11 + length payload"
  by (simp add: wire_format_def)

lemma decodeMessage_body:
  assumes "ty \<le> 255" and "i \<le> 4294967295" and "ts \<le> 4294967295"
  shows "decodeMessage (drop 2 (wire_format ty i ts payload))
           = Some \<lparr>type = ty, id' = i, timestamp = ts, data = payload\<rparr>"
proof -
  let ?i = "[of_nat (i div 16777216), of_nat (i div 65536 mod 256),
             of_nat (i div 256 mod 256), of_nat (i mod 256)] :: buffer"
  let ?ts = "[of_nat (ts div 16777216), of_nat (ts div 65536 mod 256),
              of_nat (ts div 256 mod 256), of_nat (ts mod 256)] :: buffer"
  have body: "drop 2 (wire_format ty i ts payload) = of_nat ty # ?i @ ?ts @ payload"
    by (simp add: wire_format_def)
  have r0: "readUInt8 (of_nat ty # ?i @ ?ts @ payload) 0 = Inr ty"
    using assms(1) by (simp add: readUInt8_def unat_byte)
  have r1: "readUInt32BE (of_nat ty # ?i @ ?ts @ payload) 1 = Inr i"
    using read32_bytes[OF assms(2), of "[of_nat ty]" 1 "?ts @ payload"] by simp
  have r5: "readUInt32BE (of_nat ty # ?i @ ?ts @ payload) 5 = Inr ts"
    using read32_bytes[OF assms(3), of "of_nat ty # ?i" 5 payload] by simp
  show ?thesis
    unfolding body decodeMessage_def r0 r1 r5 by (simp add: slice_from_def)
qed

lemma parseMessage_complete:
  assumes "ty \<le> 255" and "i \<le> 4294967295" and "ts \<le> 4294967295"
    and "length payload \<le> 65526"
  shows "parseMessage (t\<lparr>buffer := wire_format ty i ts payload\<rparr>)
           = Inr (Some \<lparr>type = ty, id' = i, timestamp = ts, data = payload\<rparr>,
                  t\<lparr>buffer := []\<rparr>)"
proof -
  let ?w = "wire_format ty i ts payload"
  have len: "readUInt16BE ?w 0 = Inr (9 + length payload)"
    using assms(4) read16_bytes[of "9 + length payload"] by (simp add: wire_format_def)
  have sl: "slice ?w 2 (11 + length payload) = drop 2 ?w"
    by (simp add: slice_def)
  show ?thesis
    using decodeMessage_body[OF assms(1-3), of payload]
    by (simp add: parseMessage_def len sl slice_from_def Let_def)
qed

lemma parseMessage_incomplete:
  assumes "length payload \<le> 65526" and "k < 11 + length payload"
  shows "parseMessage (t\<lparr>buffer := take k (wire_format ty i ts payload)\<rparr>)
           = Inr (None, t\<lparr>buffer := take k (wire_format ty i ts payload)\<rparr>)"
proof (cases "k < 3")
  case True
  then show ?thesis by (simp add: parseMessage_def)
next
  case False
  then have "k = Suc (Suc (k - 2))" by simp
  then obtain j where k: "k = Suc (Suc j)" ..
  have "take k (wire_format ty i ts payload)
          = of_nat ((9 + length payload) div 256) # of_nat ((9 + length payload) mod 256)
              # take j (drop 2 (wire_format ty i ts payload))"
    by (simp add: k wire_format_def)
  then have len: "readUInt16BE (take k (wire_format ty i ts payload)) 0
                    = Inr (9 + length payload)"
    using assms(1) read16_bytes[of "9 + length payload"] by simp
  show ?thesis
    using False assms(2) by (simp add: parseMessage_def len)
qed

lemma process_buffer_incomplete:
  assumes "length payload \<le> 65526" and "k < 11 + length payload"
  shows "process_buffer (t\<lparr>buffer := take k (wire_format ty i ts payload)\<rparr>)
           = (t\<lparr>buffer := take k (wire_format ty i ts payload)\<rparr>, [], None)"
  by (subst process_buffer.simps) (simp add: parseMessage_incomplete[OF assms])

lemma process_buffer_complete:
  assumes "ty \<le> 255" and "i \<le> 4294967295" and "ts \<le> 4294967295"
    and "length payload \<le> 65526"
  shows "process_buffer (t\<lparr>buffer := wire_format ty i ts payload\<rparr>)
           = (t\<lparr>buffer := []\<rparr>,
              [\<lparr>type = ty, id' = i, timestamp = ts, data = payload\<rparr>], None)"
proof -
  have e: "process_buffer (t\<lparr>buffer := []\<rparr>) = (t\<lparr>buffer := []\<rparr>, [], None)"
    by (subst process_buffer.simps) simp
  show ?thesis
    by (subst process_buffer.simps) (simp add: parseMessage_complete[OF assms] e)
qed

lemma sendMessage_connected:
  assumes "isConnected t" and "hasSocket t"
    and "ty \<le> 255" and "msgId \<le> 4294967295" and "now div 1000 \<le> 4294967295"
    and "length payload \<le> 65526"
    and "msgId = (case ident of None \<Rightarrow> generated
                      | Some i \<Rightarrow> if i = 0 then generated else i)"
  shows "sendMessage t ty payload ident now generated
           = (Inr msgId, t,
              [SocketWrite (wire_format ty msgId (now div 1000) payload)])"
  using assms
  by (simp add: sendMessage_def writeUInt8_def writeUInt32BE_def writeUInt16BE_def
        wire_format_def Let_def)

lemma handleFailure_retry:
  assumes "reconnectAttempts t < maxReconnectAttempts t"
  shows "handleFailure t f
           = (t\<lparr>isConnected := False, reconnectAttempts := Suc (reconnectAttempts t)\<rparr>,
              [case f of
                 OnError e \<Rightarrow> Emit ''transport:error'' (Failure e)
               | OnClose \<Rightarrow> Emit ''transport:disconnected'' NoArgument,
               SetTimeoutConnect (reconnectDelay t * 2 ^ reconnectAttempts t)])"
  using assms
  by (simp add: handleFailure_def handleConnectionError_def handleConnectionClose_def
        attemptReconnect_def Let_def split: failure.splits)

lemma handleFailure_give_up:
  assumes "maxReconnectAttempts t \<le> reconnectAttempts t"
  shows "handleFailure t f
           = (t\<lparr>isConnected := False\<rparr>,
              [case f of
                 OnError e \<Rightarrow> Emit ''transport:error'' (Failure e)
               | OnClose \<Rightarrow> Emit ''transport:disconnected'' NoArgument,
               Emit ''transport:max_reconnect_attempts'' NoArgument])"
  using assms
  by (simp add: handleFailure_def handleConnectionError_def handleConnectionClose_def
        attemptReconnect_def Let_def split: failure.splits)

lemma timers_notice [simp]:
  "timers ((case f of
              OnError e \<Rightarrow> Emit ''transport:error'' (Failure e)
            | OnClose \<Rightarrow> Emit ''transport:disconnected'' NoArgument) # fx) = timers fx"
  by (simp add: timers_def split: failure.splits)

lemma timers_simps [simp]:
  "timers [] = []"
  "timers (SetTimeoutConnect d # fx) = d # timers fx"
  "timers (Emit name a # fx) = timers fx"
  by (simp_all add: timers_def)

lemma sendMessage_written:
  assumes "sendMessage t ty payload ident now generated = (Inr msgId, t', fx)"
  shows "ty \<le> 255 \<and> msgId \<le> 4294967295 \<and> now div 1000 \<le> 4294967295
         \<and> length payload \<le> 65526 \<and> t' = t
         \<and> msgId = (case ident of None \<Rightarrow> generated
                          | Some i \<Rightarrow> if i = 0 then generated else i)
         \<and> fx = [SocketWrite (wire_format ty msgId (now div 1000) payload)]"
  using assms
  by (auto simp: sendMessage_def writeUInt8_def writeUInt32BE_def writeUInt16BE_def
        wire_format_def Let_def split: if_splits option.splits)

lemma process_buffer_empty:
  "buffer t = [] \<Longrightarrow> process_buffer t = (t, [], None)"
  by (subst process_buffer.simps) simp

lemma handleIncomingData_nothing:
  "buffer t = [] \<Longrightarrow> handleIncomingData t [] = (t, [], [])"
  by (simp add: handleIncomingData_def process_buffer_empty)

lemma feed_idle:
  "buffer t = [] \<Longrightarrow> concat cs = [] \<Longrightarrow> feed t cs = (t, [], [])"
  by (induction cs) (simp_all add: handleIncomingData_nothing)

lemma handleIncomingData_incomplete:
  assumes "length payload \<le> 65526"
    and "(buffer t @ c) @ rest = wire_format ty i ts payload"
    and "rest \<noteq> []"
  shows "handleIncomingData t c = (t\<lparr>buffer := buffer t @ c\<rparr>, [], [])"
proof -
  let ?w = "wire_format ty i ts payload"
  have pre: "buffer t @ c = take (length (buffer t @ c)) ?w"
    using assms(2) by (simp only: append_eq_conv_conj)
  have "length (buffer t @ c) + length rest = length ?w"
    using assms(2) by (metis length_append)
  then have short: "length (buffer t @ c) < 11 + length payload"
    using assms(3) by (cases rest) simp_all
  have "process_buffer (t\<lparr>buffer := take (length (buffer t @ c)) ?w\<rparr>)
          = (t\<lparr>buffer := take (length (buffer t @ c)) ?w\<rparr>, [], None)"
    using assms(1) short by (rule process_buffer_incomplete)
  then have "process_buffer (t\<lparr>buffer := buffer t @ c\<rparr>)
               = (t\<lparr>buffer := buffer t @ c\<rparr>, [], None)"
    using pre by simp
  then show ?thesis by (simp add: handleIncomingData_def)
qed

lemma handleIncomingData_complete:
  assumes "ty \<le> 255" and "i \<le> 4294967295" and "ts \<le> 4294967295"
    and "length payload \<le> 65526"
    and "buffer t @ c = wire_format ty i ts payload"
  shows "handleIncomingData t c
           = (t\<lparr>buffer := []\<rparr>,
              [\<lparr>type = ty, id' = i, timestamp = ts, data = payload\<rparr>],
              handleMessage \<lparr>type = ty, id' = i, timestamp = ts, data = payload\<rparr>)"
  using process_buffer_complete[OF assms(1-4), where t = t]
  by (simp add: handleIncomingData_def assms(5))

lemma feed_partial:
  assumes "length payload \<le> 65526"
  shows "(buffer t @ concat cs) @ rest = wire_format ty i ts payload \<Longrightarrow>
         rest \<noteq> [] \<Longrightarrow>
         feed t cs = (t\<lparr>buffer := buffer t @ concat cs\<rparr>, [], [])"
proof (induction cs arbitrary: t)
  case Nil
  then show ?case by simp
next
  case (Cons c cs)
  have whole: "(buffer t @ c) @ (concat cs @ rest) = wire_format ty i ts payload"
    using Cons.prems(1) by simp
  have more: "concat cs @ rest \<noteq> []"
    using Cons.prems(2) by simp
  have step: "handleIncomingData t c = (t\<lparr>buffer := buffer t @ c\<rparr>, [], [])"
    using assms whole more by (rule handleIncomingData_incomplete)
  have "feed (t\<lparr>buffer := buffer t @ c\<rparr>) cs
          = (t\<lparr>buffer := buffer t @ c\<rparr>
               \<lparr>buffer := buffer (t\<lparr>buffer := buffer t @ c\<rparr>) @ concat cs\<rparr>, [], [])"
    by (rule Cons.IH) (use Cons.prems in simp_all)
  then show ?case by (simp add: step)
qed

lemma feed_frame:
  assumes "ty \<le> 255" and "i \<le> 4294967295" and "ts \<le> 4294967295"
    and "length payload \<le> 65526"
  shows "buffer t @ concat cs = wire_format ty i ts payload \<Longrightarrow>
         length (buffer t) < 11 + length payload \<Longrightarrow>
         feed t cs
           = (t\<lparr>buffer := []\<rparr>,
              [\<lparr>type = ty, id' = i, timestamp = ts, data = payload\<rparr>],
              handleMessage \<lparr>type = ty, id' = i, timestamp = ts, data = payload\<rparr>)"
proof (induction cs arbitrary: t)
  case Nil
  then have "length (buffer t) = length (wire_format ty i ts payload)"
    by simp
  with Nil show ?case by simp
next
  case (Cons c cs)
  let ?w = "wire_format ty i ts payload"
  let ?m = "\<lparr>type = ty, id' = i, timestamp = ts, data = payload\<rparr>"
  have whole: "(buffer t @ c) @ concat cs = ?w"
    using Cons.prems(1) by simp
  then have "length (buffer t @ c) + length (concat cs) = length ?w"
    by (metis length_append)
  then have total: "length (buffer t @ c) + length (concat cs) = 11 + length payload"
    by simp
  show ?case
  proof (cases "concat cs = []")
    case False
    have step: "handleIncomingData t c = (t\<lparr>buffer := buffer t @ c\<rparr>, [], [])"
      using assms(4) whole False by (rule handleIncomingData_incomplete)
    have short: "length (buffer t @ c) < 11 + length payload"
      using total False by (cases "concat cs") simp_all
    have "feed (t\<lparr>buffer := buffer t @ c\<rparr>) cs
            = (t\<lparr>buffer := buffer t @ c\<rparr>\<lparr>buffer := []\<rparr>, [?m], handleMessage ?m)"
      by (rule Cons.IH) (use whole short in simp_all)
    then show ?thesis by (simp add: step)
  next
    case True
    have "(buffer t @ c) @ [] = ?w"
      using whole unfolding True .
    then have all: "buffer t @ c = ?w"
      by (simp only: append_Nil2)
    have step: "handleIncomingData t c = (t\<lparr>buffer := []\<rparr>, [?m], handleMessage ?m)"
      using assms all by (rule handleIncomingData_complete)
    have "feed (t\<lparr>buffer := []\<rparr>) cs = (t\<lparr>buffer := []\<rparr>, [], [])"
      by (rule feed_idle) (use True in simp_all)
    then show ?thesis by (simp add: step)
  qed
qed

lemma decodeMessage_short:
  "length d < 9 \<Longrightarrow> decodeMessage d = None"
  by (simp add: decodeMessage_def readUInt8_def readUInt32BE_def)

lemma parseMessage_short_frame:
  assumes "buffer t = hi # lo # rest"
    and "unat hi * 256 + unat lo < 9"
    and "unat hi * 256 + unat lo \<le> length rest" and "rest \<noteq> []"
  shows "parseMessage t = Inr (None, t\<lparr>buffer := drop (unat hi * 256 + unat lo) rest\<rparr>)"
proof -
  let ?len = "unat hi * 256 + unat lo"
  have three: "\<not> length (hi # lo # rest) < 3"
    using assms(4) by (cases rest) simp_all
  have len: "readUInt16BE (hi # lo # rest) 0 = Inr ?len"
    by (simp add: readUInt16BE_def)
  have enough: "\<not> length (hi # lo # rest) < ?len + 2"
    using assms(3) by simp
  have body: "slice (hi # lo # rest) 2 (?len + 2) = take ?len rest"
    by (simp add: slice_def)
  have tail: "slice_from (hi # lo # rest) (?len + 2) = drop ?len rest"
    by (simp add: slice_from_def)
  have none: "decodeMessage (take ?len rest) = None"
    using assms(2) by (intro decodeMessage_short) simp
  show ?thesis
    by (simp only: parseMessage_def assms(1) len Let_def body tail none three enough
          if_False sum.case)
qed

lemma handleIncomingData_short_frame:
  assumes "buffer t @ chunk = hi # lo # rest"
    and "unat hi * 256 + unat lo < 9"
    and "unat hi * 256 + unat lo \<le> length rest" and "rest \<noteq> []"
  shows "handleIncomingData t chunk
           = (t\<lparr>buffer := drop (unat hi * 256 + unat lo) rest\<rparr>, [], [])"
proof -
  let ?t = "t\<lparr>buffer := buffer t @ chunk\<rparr>"
  have "parseMessage ?t = Inr (None, ?t\<lparr>buffer := drop (unat hi * 256 + unat lo) rest\<rparr>)"
    by (rule parseMessage_short_frame) (use assms in simp_all)
  then have "process_buffer ?t
               = (t\<lparr>buffer := drop (unat hi * 256 + unat lo) rest\<rparr>, [], None)"
    by (subst process_buffer.simps) (simp add: assms(1))
  then show ?thesis by (simp add: handleIncomingData_def)
qed

lemma parseMessage_payload_bound:
  assumes "parseMessage t = Inr (Some m, t')"
  shows "length (data m) \<le> 65526"
proof -
  obtain len where len: "readUInt16BE (buffer t) 0 = Inr len"
    and dec: "decodeMessage (slice (buffer t) 2 (len + 2)) = Some m"
    using assms
    by (auto simp: parseMessage_def Let_def split: if_splits sum.splits)
  have "unat x < 2 ^ LENGTH(8)" for x :: byte
    by (rule unsigned_less)
  then have byte: "unat x \<le> 255" for x :: byte
    using less_Suc_eq_le[of "unat x" 255] by simp
  have a: "unat (buffer t ! 0) \<le> 255" and b: "unat (buffer t ! 1) \<le> 255"
    by (rule byte)+
  from len have "len = unat (buffer t ! 0) * 256 + unat (buffer t ! 1)"
    by (auto simp: readUInt16BE_def split: if_splits)
  with a b have "len \<le> 65535" by simp
  moreover have "length (slice (buffer t) 2 (len + 2)) \<le> len"
    by (simp add: slice_def)
  moreover have "data m = drop 9 (slice (buffer t) 2 (len + 2))"
    using dec by (auto simp: decodeMessage_def slice_from_def split: sum.splits)
  ultimately show ?thesis by simp
qed

lemma parseMessage_returns:
  "\<exists>p t'. parseMessage t = Inr (p, t') \<and> t' = t\<lparr>buffer := buffer t'\<rparr>"
  by (simp add: parseMessage_def readUInt16BE_def Let_def)

lemma process_buffer_state:
  "process_buffer t = (t', ms, err) \<Longrightarrow> t' = t\<lparr>buffer := buffer t'\<rparr> \<and> err = None"
proof (induction t arbitrary: t' ms err rule: process_buffer.induct)
  case (1 t)
  obtain p u where pm: "parseMessage t = Inr (p, u)" and u: "u = t\<lparr>buffer := buffer u\<rparr>"
    using parseMessage_returns[of t] by blast
  show ?case
  proof (cases "0 < length (buffer t)")
    case False
    with "1.prems" show ?thesis
      by (subst (asm) process_buffer.simps) simp
  next
    case True
    show ?thesis
    proof (cases p)
      case None
      with "1.prems" True pm u show ?thesis
        by (subst (asm) process_buffer.simps) (auto)
    next
      case (Some m)
      obtain u' ms' err' where rest: "process_buffer u = (u', ms', err')"
        by (cases "process_buffer u") auto
      from "1.IH"[OF True pm refl Some rest]
      have ih: "u' = u\<lparr>buffer := buffer u'\<rparr>" and e: "err' = None"
        by simp_all
      from "1.prems" True pm Some rest
      have "t' = u'" and "err = err'"
        by (subst (asm) process_buffer.simps, simp)+
      with ih e u show ?thesis
        by (metis transport.surjective transport.update_convs(7) transport.select_convs)
    qed
  qed
qed

lemma timers_handleMessage [simp]:
  "timers (handleMessage m) = []"
  by (simp add: handleMessage_def)

lemma timers_append [simp]:
  "timers (xs @ ys) = timers xs @ timers ys"
  by (simp add: timers_def)

lemma timers_handled:
  "timers (concat (map handleMessage ms)) = []"
  by (induction ms) simp_all

lemma handleIncomingData_keeps_connection:
  "fst (handleIncomingData t chunk)
     = t\<lparr>buffer := buffer (fst (handleIncomingData t chunk))\<rparr>
   \<and> snd (snd (handleIncomingData t chunk))
     = concat (map handleMessage (fst (snd (handleIncomingData t chunk))))
   \<and> timers (snd (snd (handleIncomingData t chunk))) = []"
proof -
  obtain t' ms err where pb: "process_buffer (t\<lparr>buffer := buffer t @ chunk\<rparr>) = (t', ms, err)"
    by (cases "process_buffer (t\<lparr>buffer := buffer t @ chunk\<rparr>)") auto
  from process_buffer_state[OF pb]
  have st: "t' = t\<lparr>buffer := buffer t @ chunk\<rparr>\<lparr>buffer := buffer t'\<rparr>" and e: "err = None"
    by simp_all
  from st have st': "t' = t\<lparr>buffer := buffer t'\<rparr>"
    by simp
  have r: "handleIncomingData t chunk = (t', ms, concat (map handleMessage ms))"
    by (simp add: handleIncomingData_def pb e)
  show ?thesis
    unfolding r using st' by (simp add: timers_handled)
qed

section \<open>Envelopes\<close>

lemma flip_char_neq:
  assumes "b < 8"
  shows "flip_char b c \<noteq> c"
proof
  assume "flip_char b c = c"
  then have "of_char (flip_char b c) = (of_char c :: nat)" by simp
  then have eq: "flip_bit b (of_char c :: nat) mod 256 = of_char c"
    by (simp add: flip_char_def)
  have "bit (flip_bit b (of_char c :: nat) mod 256) b = bit (flip_bit b (of_char c :: nat)) b"
    using assms bit_take_bit_iff[of 8 "flip_bit b (of_char c :: nat)" b]
    by (simp add: take_bit_eq_mod)
  also have "\<dots> = (\<not> bit (of_char c :: nat) b)"
    by (simp add: bit_flip_bit_iff)
  finally show False
    using eq by simp
qed

lemma flip_bit_at_neq:
  assumes "p < length s" and "b < 8"
  shows "flip_bit_at p b s \<noteq> s"
proof
  assume "flip_bit_at p b s = s"
  then have "flip_bit_at p b s ! p = s ! p" by simp
  then have "flip_char b (s ! p) = s ! p"
    using assms(1) by (simp add: flip_bit_at_def)
  then show False
    using flip_char_neq[OF assms(2)] by blast
qed

lemma stand_in_decrypts:
  "aes_decrypt stand_in k (aes_encrypt stand_in k t) = Some t"
  by (simp add: stand_in_def)

lemma stand_in_parses:
  "json_value stand_in (json_text stand_in d) = Some d"
  by (simp add: stand_in_def)

lemma getOrCreateSession_stored:
  "getOrCreateSession store recipient r = (s, store') \<Longrightarrow> store' recipient = Some s"
  by (auto simp: getOrCreateSession_def Let_def split: option.splits)

lemma encryptMessage_session:
  assumes "encryptMessage P store recipient message messageType r = (e, store')"
  obtains s where "store' recipient = Some s"
    and "getOrCreateSession store recipient r = (s, store')"
    and "e = encryptEnvelope P
               (VObj [(''type'', VStr messageType),
                      (''recipientId'', VStr recipient),
                      (''messageId'', VNum (int (newMessageId r))),
                      (''timestamp'', VNum (int (envelopeCreated r))),
                      (''encryptedContent'',
                       encryptContent P message (newMessageKey r) (contentIv r)),
                      (''messageKey'', VBuffer (newMessageKey r)),
                      (''sessionId'', VStr (sessionId s))])
               s (envelopeIv r)"
proof -
  obtain s st where g: "getOrCreateSession store recipient r = (s, st)"
    by (cases "getOrCreateSession store recipient r")
  with assms have "st = store'" and "e = encryptEnvelope P
               (VObj [(''type'', VStr messageType),
                      (''recipientId'', VStr recipient),
                      (''messageId'', VNum (int (newMessageId r))),
                      (''timestamp'', VNum (int (envelopeCreated r))),
                      (''encryptedContent'',
                       encryptContent P message (newMessageKey r) (contentIv r)),
                      (''messageKey'', VBuffer (newMessageKey r)),
                      (''sessionId'', VStr (sessionId s))])
               s (envelopeIv r)"
    by (simp_all add: encryptMessage_def Let_def)
  with g getOrCreateSession_stored[OF g] that show thesis by blast
qed

lemma encryptEnvelope_signed:
  "signature (encryptEnvelope P envelope s ivBytes)
     = hmac_sha256 P (chainKey s) (ciphertext (encryptEnvelope P envelope s ivBytes))"
  by (simp add: encryptEnvelope_def Let_def)

lemma decryptEnvelope_encryptEnvelope:
  assumes "\<forall>k t. aes_decrypt P k (aes_encrypt P k t) = Some t"
    and "\<forall>d. json_value P (json_text P d) = Some d"
  shows "decryptEnvelope P (encryptEnvelope P envelope s ivBytes) s = Inr (toJSON envelope)"
  using assms
  by (simp add: decryptEnvelope_def encryptEnvelope_def JSON_parse_def JSON_stringify_def
        Let_def)

lemma decryptMessage_bad_signature:
  assumes "store sender = Some s"
    and "hmac_sha256 P (chainKey s) (ciphertext e) \<noteq> signature e"
  shows "decryptMessage P store sender e = Inl (Error ''Invalid message signature'')"
  using assms by (simp add: decryptMessage_def getSession_def decryptEnvelope_def Let_def)

lemma encryptMessage_existing:
  assumes "store recipient = Some s"
  shows "snd (encryptMessage P store recipient message messageType r) = store"
  using assms by (simp add: encryptMessage_def getOrCreateSession_def Let_def)

lemma encryptMessages_existing:
  "store recipient = Some s \<Longrightarrow> snd (encryptMessages P store recipient calls) = store"
proof (induction calls arbitrary: store)
  case Nil
  then show ?case by simp
next
  case (Cons c calls)
  obtain message messageType r where c: "c = (message, messageType, r)"
    by (cases c)
  obtain e st where step: "encryptMessage P store recipient message messageType r = (e, st)"
    by (cases "encryptMessage P store recipient message messageType r")
  then have st: "st = store"
    using encryptMessage_existing[where store = store and recipient = recipient and s = s
            and P = P and message = message and messageType = messageType and r = r]
          Cons.prems
    by simp
  obtain es st' where rest: "encryptMessages P store recipient calls = (es, st')"
    by (cases "encryptMessages P store recipient calls")
  then have "st' = store"
    using Cons.IH[where store = store] Cons.prems by simp
  then show ?case
    by (simp add: c step st rest)
qed

lemma decryptEnvelope_iv:
  "decryptEnvelope P (e\<lparr>iv := v\<rparr>) s = decryptEnvelope P e s"
  by (simp add: decryptEnvelope_def)

lemma decryptContent_iv:
  "decryptContent P (Some (JObj [(''iv'', x), (''ciphertext'', c)])) k
     = decryptContent P (Some (JObj [(''iv'', y), (''ciphertext'', c)])) k"
  by (simp add: decryptContent_def property_def split: option.splits json.splits)

section \<open>Claims about the transport\<close>

text \<open>
  C3 (frame round trip). For every frame that \<open>sendMessage\<close> builds from a type byte,
  a 32-bit id, a 32-bit timestamp in seconds and a payload of at most 65526 bytes, the
  bytes written to the socket are the specified layout (2-byte big-endian length prefix
  equal to 9 plus the payload length, type, big-endian id, big-endian timestamp,
  payload), and \<open>parseMessage\<close> on a buffer holding exactly these bytes decodes a frame
  equal to the one that was sent and leaves the buffer empty.
\<close>

theorem frame_round_trip:
  assumes "isConnected t" and "hasSocket t"
    and "ty \<le> 255" and "msgId \<le> 4294967295" and "now div 1000 \<le> 4294967295"
    and "length payload \<le> 65526"
    and "msgId = (case ident of None \<Rightarrow> generated
                      | Some i \<Rightarrow> if i = 0 then generated else i)"
  shows "sendMessage t ty payload ident now generated
           = (Inr msgId, t,
              [SocketWrite (wire_format ty msgId (now div 1000) payload)])
         \<and> parseMessage (r\<lparr>buffer := wire_format ty msgId (now div 1000) payload\<rparr>)
           = Inr (Some \<lparr>type = ty, id' = msgId, timestamp = now div 1000,
                        data = payload\<rparr>,
                  r\<lparr>buffer := []\<rparr>)"
  using sendMessage_connected[OF assms] parseMessage_complete[OF assms(3-6)]
  by simp

theorem frame_round_trip_witness:
  "sendMessage (fst (connect_resolved constructor)) 1 [104, 105] (Some 7) 5000 99
     = (Inr 7, fst (connect_resolved constructor),
        [SocketWrite [0, 11, 1, 0, 0, 0, 7, 0, 0, 0, 5, 104, 105]])
   \<and> parseMessage (constructor\<lparr>buffer := [0, 11, 1, 0, 0, 0, 7, 0, 0, 0, 5, 104, 105]\<rparr>)
     = Inr (Some \<lparr>type = 1, id' = 7, timestamp = 5, data = [104, 105]\<rparr>,
            constructor\<lparr>buffer := []\<rparr>)"
  using frame_round_trip[where t = "fst (connect_resolved constructor)" and ty = 1
          and msgId = 7 and now = 5000 and payload = "[104, 105]"
          and ident = "Some 7" and generated = 99 and r = constructor]
  by (simp add: connect_resolved_def constructor_def wire_format_def)

text \<open>
  C4 (partial-frame buffering). Whatever \<open>sendMessage\<close> writes for a frame, cut into any
  sequence of chunks and delivered to \<open>handleIncomingData\<close> on an empty buffer, is
  decoded into exactly one frame, the one that was sent, with the same result as
  delivering the bytes in one read; and as long as the chunks delivered so far do not
  make up the whole frame, nothing is decoded and the buffer holds exactly these bytes.
\<close>

theorem partial_frame_buffering:
  assumes "sendMessage s ty payload ident now generated
             = (Inr msgId, s', [SocketWrite wire])"
    and "buffer t = []" and "concat chunks = wire"
  shows "feed t chunks = feed t [wire]
         \<and> feed t chunks
           = (t, [\<lparr>type = ty, id' = msgId, timestamp = now div 1000, data = payload\<rparr>],
              handleMessage
                \<lparr>type = ty, id' = msgId, timestamp = now div 1000, data = payload\<rparr>)
         \<and> (\<forall>k. concat (take k chunks) \<noteq> wire \<longrightarrow>
               feed t (take k chunks) = (t\<lparr>buffer := concat (take k chunks)\<rparr>, [], []))"
proof -
  let ?m = "\<lparr>type = ty, id' = msgId, timestamp = now div 1000, data = payload\<rparr>"
  from sendMessage_written[OF assms(1)]
  have ty: "ty \<le> 255" and mid: "msgId \<le> 4294967295"
    and ts: "now div 1000 \<le> 4294967295" and len: "length payload \<le> 65526"
    and wire: "wire = wire_format ty msgId (now div 1000) payload"
    by simp_all
  have t: "t\<lparr>buffer := []\<rparr> = t"
    using assms(2) by simp
  have chunked: "feed t chunks = (t\<lparr>buffer := []\<rparr>, [?m], handleMessage ?m)"
    by (rule feed_frame[OF ty mid ts len]) (use assms(2,3) wire in simp_all)
  have whole: "feed t [wire] = (t\<lparr>buffer := []\<rparr>, [?m], handleMessage ?m)"
    by (rule feed_frame[OF ty mid ts len]) (use assms(2) wire in simp_all)
  have partial: "feed t (take k chunks) = (t\<lparr>buffer := concat (take k chunks)\<rparr>, [], [])"
    if "concat (take k chunks) \<noteq> wire" for k
  proof -
    have split: "concat (take k chunks) @ concat (drop k chunks) = wire"
      using assms(3) by (metis append_take_drop_id concat_append)
    with that have more: "concat (drop k chunks) \<noteq> []"
      by auto
    have "feed t (take k chunks)
            = (t\<lparr>buffer := buffer t @ concat (take k chunks)\<rparr>, [], [])"
      by (rule feed_partial[OF len, where rest = "concat (drop k chunks)"
                and ty = ty and i = msgId and ts = "now div 1000"])
         (use split more wire assms(2) in simp_all)
    then show ?thesis using assms(2) by simp
  qed
  from chunked whole partial t show ?thesis by simp
qed

theorem partial_frame_buffering_witness:
  "feed constructor [[0, 11, 1, 0], [0, 0, 7, 0, 0, 0], [5, 104, 105]]
     = feed constructor [[0, 11, 1, 0, 0, 0, 7, 0, 0, 0, 5, 104, 105]]
   \<and> feed constructor [[0, 11, 1, 0], [0, 0, 7, 0, 0, 0], [5, 104, 105]]
     = (constructor, [\<lparr>type = 1, id' = 7, timestamp = 5, data = [104, 105]\<rparr>],
        [Emit ''message:text''
           (Message \<lparr>type = 1, id' = 7, timestamp = 5, data = [104, 105]\<rparr>)])
   \<and> feed constructor [[0, 11, 1, 0], [0, 0, 7, 0, 0, 0]]
     = (constructor\<lparr>buffer := [0, 11, 1, 0, 0, 0, 7, 0, 0, 0]\<rparr>, [], [])"
proof -
  have sent: "sendMessage (fst (connect_resolved constructor)) 1 [104, 105] (Some 7) 5000 99
                = (Inr 7, fst (connect_resolved constructor),
                   [SocketWrite [0, 11, 1, 0, 0, 0, 7, 0, 0, 0, 5, 104, 105]])"
    by (simp add: sendMessage_def connect_resolved_def constructor_def writeUInt8_def
          writeUInt32BE_def writeUInt16BE_def Let_def)
  have empty: "buffer constructor = []"
    by (simp add: constructor_def)
  have chunks: "concat [[0, 11, 1, 0], [0, 0, 7, 0, 0, 0], [5, 104, 105]]
                  = [0, 11, 1, 0, 0, 0, 7, 0, 0, 0, 5, 104, 105 :: byte]"
    by simp
  note inst = partial_frame_buffering[OF sent empty chunks]
  have two: "concat (take 2 [[0, 11, 1, 0], [0, 0, 7, 0, 0, 0], [5, 104, 105 :: byte]])
               \<noteq> [0, 11, 1, 0, 0, 0, 7, 0, 0, 0, 5, 104, 105]"
    by (simp add: numeral_2_eq_2)
  have prefix: "take 2 [[0, 11, 1, 0], [0, 0, 7, 0, 0, 0], [5, 104, 105 :: byte]]
                  = [[0, 11, 1, 0], [0, 0, 7, 0, 0, 0]]"
    and joined: "concat [[0, 11, 1, 0], [0, 0, 7, 0, 0, 0 :: byte]]
                   = [0, 11, 1, 0, 0, 0, 7, 0, 0, 0]"
    by (simp_all add: numeral_2_eq_2)
  have handled: "handleMessage \<lparr>type = 1, id' = 7, timestamp = 5000 div 1000,
                                data = [104, 105]\<rparr>
                   = [Emit ''message:text''
                        (Message \<lparr>type = 1, id' = 7, timestamp = 5, data = [104, 105]\<rparr>)]"
    and seconds: "(5000 :: nat) div 1000 = 5"
    by (simp_all add: handleMessage_def)
  from inst two
  have "feed constructor (take 2 [[0, 11, 1, 0], [0, 0, 7, 0, 0, 0], [5, 104, 105]])
      = (constructor\<lparr>buffer := concat (take 2 [[0, 11, 1, 0], [0, 0, 7, 0, 0, 0],
                                               [5, 104, 105]])\<rparr>, [], [])"
    by blast
  then have part: "feed constructor [[0, 11, 1, 0], [0, 0, 7, 0, 0, 0]]
      = (constructor\<lparr>buffer := [0, 11, 1, 0, 0, 0, 7, 0, 0, 0]\<rparr>, [], [])"
    unfolding prefix joined .
  from inst have one: "feed constructor [[0, 11, 1, 0], [0, 0, 7, 0, 0, 0], [5, 104, 105]]
      = feed constructor [[0, 11, 1, 0, 0, 0, 7, 0, 0, 0, 5, 104, 105]]"
    by (rule conjunct1)
  from inst have "feed constructor [[0, 11, 1, 0], [0, 0, 7, 0, 0, 0], [5, 104, 105]]
      = (constructor, [\<lparr>type = 1, id' = 7, timestamp = 5000 div 1000, data = [104, 105]\<rparr>],
         handleMessage \<lparr>type = 1, id' = 7, timestamp = 5000 div 1000,
                        data = [104, 105]\<rparr>)"
    by blast
  then have frame: "feed constructor [[0, 11, 1, 0], [0, 0, 7, 0, 0, 0], [5, 104, 105]]
      = (constructor, [\<lparr>type = 1, id' = 7, timestamp = 5, data = [104, 105]\<rparr>],
         [Emit ''message:text''
            (Message \<lparr>type = 1, id' = 7, timestamp = 5, data = [104, 105]\<rparr>)])"
    unfolding handled unfolding seconds .
  from one frame part show ?thesis
    by (intro conjI)
qed

text \<open>
  C5 (backoff growth). From a state whose reconnect-attempt counter is 0, as \<open>connect\<close>
  leaves it, with the constructor's limit of 5 attempts and base delay of 1000 ms, six
  connection failures in a row set the reconnection timer to 1000, 2000, 4000, 8000 and
  16000 ms in this order, and the sixth sets no timer and emits
  \<open>transport:max_reconnect_attempts\<close>. Each delay is the base delay times 2 to the
  power of the attempt number minus one.
\<close>

theorem backoff_growth:
  assumes "reconnectAttempts t = 0" and "maxReconnectAttempts t = 5"
    and "reconnectDelay t = 1000"
  shows "map timers (snd (failures t [f1, f2, f3, f4, f5, f6]))
           = [[1000], [2000], [4000], [8000], [16000], []]
         \<and> Emit ''transport:max_reconnect_attempts'' NoArgument
             \<in> set (snd (failures t [f1, f2, f3, f4, f5, f6]) ! 5)
         \<and> (\<forall>u. reconnectAttempts u < maxReconnectAttempts u \<longrightarrow>
               attemptReconnect u
                 = (u\<lparr>reconnectAttempts := reconnectAttempts u + 1\<rparr>,
                    [SetTimeoutConnect
                       (reconnectDelay u * 2 ^ (reconnectAttempts u + 1 - 1))]))"
proof -
  have run: "snd (failures t [f1, f2, f3, f4, f5, f6])
      = [[case f1 of OnError e \<Rightarrow> Emit ''transport:error'' (Failure e)
                   | OnClose \<Rightarrow> Emit ''transport:disconnected'' NoArgument,
          SetTimeoutConnect 1000],
         [case f2 of OnError e \<Rightarrow> Emit ''transport:error'' (Failure e)
                   | OnClose \<Rightarrow> Emit ''transport:disconnected'' NoArgument,
          SetTimeoutConnect 2000],
         [case f3 of OnError e \<Rightarrow> Emit ''transport:error'' (Failure e)
                   | OnClose \<Rightarrow> Emit ''transport:disconnected'' NoArgument,
          SetTimeoutConnect 4000],
         [case f4 of OnError e \<Rightarrow> Emit ''transport:error'' (Failure e)
                   | OnClose \<Rightarrow> Emit ''transport:disconnected'' NoArgument,
          SetTimeoutConnect 8000],
         [case f5 of OnError e \<Rightarrow> Emit ''transport:error'' (Failure e)
                   | OnClose \<Rightarrow> Emit ''transport:disconnected'' NoArgument,
          SetTimeoutConnect 16000],
         [case f6 of OnError e \<Rightarrow> Emit ''transport:error'' (Failure e)
                   | OnClose \<Rightarrow> Emit ''transport:disconnected'' NoArgument,
          Emit ''transport:max_reconnect_attempts'' NoArgument]]"
    using assms by (simp add: handleFailure_retry handleFailure_give_up)
  have formula: "attemptReconnect u
      = (u\<lparr>reconnectAttempts := reconnectAttempts u + 1\<rparr>,
         [SetTimeoutConnect (reconnectDelay u * 2 ^ (reconnectAttempts u + 1 - 1))])"
    if "reconnectAttempts u < maxReconnectAttempts u" for u
    using that by (simp add: attemptReconnect_def Let_def)
  show ?thesis
    unfolding run using formula by simp
qed

theorem backoff_growth_witness:
  "map timers
     (snd (failures (fst (connect_resolved constructor))
             [OnError (Error ''ECONNRESET''), OnClose, OnClose,
              OnError (Error ''ETIMEDOUT''), OnClose, OnClose]))
     = [[1000], [2000], [4000], [8000], [16000], []]
   \<and> Emit ''transport:max_reconnect_attempts'' NoArgument
       \<in> set (snd (failures (fst (connect_resolved constructor))
                       [OnError (Error ''ECONNRESET''), OnClose, OnClose,
                        OnError (Error ''ETIMEDOUT''), OnClose, OnClose]) ! 5)
   \<and> attemptReconnect (fst (connect_resolved constructor))
     = ((fst (connect_resolved constructor))\<lparr>reconnectAttempts := 1\<rparr>,
        [SetTimeoutConnect 1000])"
proof -
  let ?t = "fst (connect_resolved constructor)"
  have a: "reconnectAttempts ?t = 0" and m: "maxReconnectAttempts ?t = 5"
    and d: "reconnectDelay ?t = 1000"
    by (simp_all add: connect_resolved_def constructor_def)
  note inst = backoff_growth[OF a m d, where ?f1.0 = "OnError (Error ''ECONNRESET'')"
      and ?f2.0 = OnClose and ?f3.0 = OnClose
      and ?f4.0 = "OnError (Error ''ETIMEDOUT'')" and ?f5.0 = OnClose
      and ?f6.0 = OnClose]
  from inst have "attemptReconnect ?t
      = (?t\<lparr>reconnectAttempts := reconnectAttempts ?t + 1\<rparr>,
         [SetTimeoutConnect (reconnectDelay ?t * 2 ^ (reconnectAttempts ?t + 1 - 1))])"
    using a m by simp
  then have first: "attemptReconnect ?t
      = (?t\<lparr>reconnectAttempts := 1\<rparr>, [SetTimeoutConnect 1000])"
    by (simp add: a d)
  from inst first show ?thesis
    by blast
qed

text \<open>
  C7 (malformed frames), as the code has it. The incoming-data handler never drops the
  connection and never schedules a reconnection, whatever bytes arrive: a read changes
  nothing of the manager but the receive buffer, emits only the events of the frames it
  handles and sets no reconnection timer. A frame whose length prefix is below 9, so
  also one whose length prefix is 0, is not a malformed-frame condition: when the
  bytes in the buffer begin with such a frame, with at least one byte after the prefix
  and all the bytes the prefix declares, \<open>parseMessage\<close> takes the prefix and the
  declared bytes out of the buffer and returns no frame; and when the buffered bytes
  together with a read begin with such a frame and fewer than three bytes follow it,
  that read handles nothing, emits nothing and leaves exactly the bytes after the frame
  in the buffer. A payload above 65526 bytes cannot be declared by the 2-byte prefix,
  so no decoded frame carries one.
\<close>

theorem malformed_frame_dropped:
  assumes "buffer t @ chunk = hi # lo # rest"
    and "unat hi * 256 + unat lo < 9"
    and "unat hi * 256 + unat lo \<le> length rest" and "rest \<noteq> []"
  shows "parseMessage (t\<lparr>buffer := buffer t @ chunk\<rparr>)
           = Inr (None, t\<lparr>buffer := drop (unat hi * 256 + unat lo) rest\<rparr>)
         \<and> (length rest < unat hi * 256 + unat lo + 3 \<longrightarrow>
              handleIncomingData t chunk
                = (t\<lparr>buffer := drop (unat hi * 256 + unat lo) rest\<rparr>, [], []))
         \<and> (\<forall>u c. fst (handleIncomingData u c)
                    = u\<lparr>buffer := buffer (fst (handleIncomingData u c))\<rparr>
                  \<and> snd (snd (handleIncomingData u c))
                    = concat (map handleMessage (fst (snd (handleIncomingData u c))))
                  \<and> timers (snd (snd (handleIncomingData u c))) = [])
         \<and> (\<forall>u m u'. parseMessage u = Inr (Some m, u') \<longrightarrow> length (data m) \<le> 65526)"
proof -
  have "parseMessage (t\<lparr>buffer := buffer t @ chunk\<rparr>)
          = Inr (None, t\<lparr>buffer := buffer t @ chunk\<rparr>
                        \<lparr>buffer := drop (unat hi * 256 + unat lo) rest\<rparr>)"
    by (rule parseMessage_short_frame) (use assms in simp_all)
  then have skipped: "parseMessage (t\<lparr>buffer := buffer t @ chunk\<rparr>)
      = Inr (None, t\<lparr>buffer := drop (unat hi * 256 + unat lo) rest\<rparr>)"
    by simp
  have read: "handleIncomingData t chunk
      = (t\<lparr>buffer := drop (unat hi * 256 + unat lo) rest\<rparr>, [], [])"
    using assms by (rule handleIncomingData_short_frame)
  from skipped read handleIncomingData_keeps_connection parseMessage_payload_bound
  show ?thesis
    by blast
qed

theorem malformed_frame_dropped_witness:
  "parseMessage ((fst (connect_resolved constructor))\<lparr>buffer := [0, 0, 0]\<rparr>)
     = Inr (None, (fst (connect_resolved constructor))\<lparr>buffer := [0]\<rparr>)
   \<and> handleIncomingData (fst (connect_resolved constructor)) [0, 0, 0]
     = ((fst (connect_resolved constructor))\<lparr>buffer := [0]\<rparr>, [], [])
   \<and> fst (handleIncomingData (fst (connect_resolved constructor))
            [0, 9, 1, 0, 0, 0, 7, 0, 0, 0, 5, 0, 0, 0])
     = (fst (connect_resolved constructor))
         \<lparr>buffer := buffer (fst (handleIncomingData (fst (connect_resolved constructor))
                                   [0, 9, 1, 0, 0, 0, 7, 0, 0, 0, 5, 0, 0, 0]))\<rparr>
   \<and> timers (snd (snd (handleIncomingData (fst (connect_resolved constructor))
                           [0, 9, 1, 0, 0, 0, 7, 0, 0, 0, 5, 0, 0, 0]))) = []
   \<and> parseMessage (constructor\<lparr>buffer := [0, 9, 1, 0, 0, 0, 7, 0, 0, 0, 5]\<rparr>)
     = Inr (Some \<lparr>type = 1, id' = 7, timestamp = 5, data = []\<rparr>,
            constructor\<lparr>buffer := []\<rparr>)
   \<and> length (data \<lparr>type = 1, id' = 7, timestamp = 5, data = []\<rparr>) \<le> 65526"
proof -
  let ?t = "fst (connect_resolved constructor)"
  have head: "buffer ?t @ [0, 0, 0] = 0 # 0 # [0]"
    and short: "unat (0 :: byte) * 256 + unat (0 :: byte) < 9"
    and present: "unat (0 :: byte) * 256 + unat (0 :: byte) \<le> length [0 :: byte]"
    and more: "[0 :: byte] \<noteq> []"
    by (simp_all add: connect_resolved_def constructor_def)
  note inst = malformed_frame_dropped[OF head short present more]
  have parsed: "parseMessage (constructor\<lparr>buffer := [0, 9, 1, 0, 0, 0, 7, 0, 0, 0, 5]\<rparr>)
      = Inr (Some \<lparr>type = 1, id' = 7, timestamp = 5, data = []\<rparr>,
             constructor\<lparr>buffer := []\<rparr>)"
    using parseMessage_complete[where ty = 1 and i = 7 and ts = 5 and payload = "[]"
            and t = constructor]
    by (simp add: wire_format_def)
  from inst have skipped: "parseMessage (?t\<lparr>buffer := [0, 0, 0]\<rparr>)
      = Inr (None, ?t\<lparr>buffer := [0]\<rparr>)"
    by (simp add: connect_resolved_def constructor_def)
  from inst have dropped: "handleIncomingData ?t [0, 0, 0] = (?t\<lparr>buffer := [0]\<rparr>, [], [])"
    by (simp add: connect_resolved_def constructor_def)
  from inst have kept: "fst (handleIncomingData ?t [0, 9, 1, 0, 0, 0, 7, 0, 0, 0, 5, 0, 0, 0])
      = ?t\<lparr>buffer := buffer (fst (handleIncomingData ?t
                                    [0, 9, 1, 0, 0, 0, 7, 0, 0, 0, 5, 0, 0, 0]))\<rparr>"
    and quiet: "timers (snd (snd (handleIncomingData ?t
                                    [0, 9, 1, 0, 0, 0, 7, 0, 0, 0, 5, 0, 0, 0]))) = []"
    by blast+
  from inst have bound: "\<forall>u m u'. parseMessage u = Inr (Some m, u') \<longrightarrow> length (data m) \<le> 65526"
    by blast
  from bound parsed
  have sized: "length (data \<lparr>type = 1, id' = 7, timestamp = 5, data = []\<rparr>) \<le> 65526"
    by blast
  from skipped dropped kept quiet parsed sized show ?thesis
    by (intro conjI)
qed

text \<open>
  C7 as the specification states it fails: on a connected manager, a read of three
  zero bytes (a length prefix of 0 and one more byte) leaves the manager connected,
  emits nothing and sets no reconnection timer; the two prefix bytes are skipped and
  parsing goes on with the byte that follows them.
\<close>

theorem malformed_frame_counterexample:
  "isConnected (fst (handleIncomingData (fst (connect_resolved constructor)) [0, 0, 0]))
   \<and> reconnectAttempts
       (fst (handleIncomingData (fst (connect_resolved constructor)) [0, 0, 0])) = 0
   \<and> snd (snd (handleIncomingData (fst (connect_resolved constructor)) [0, 0, 0])) = []
   \<and> buffer (fst (handleIncomingData (fst (connect_resolved constructor)) [0, 0, 0])) = [0]"
proof -
  have "handleIncomingData (fst (connect_resolved constructor)) [0, 0, 0]
          = ((fst (connect_resolved constructor))\<lparr>buffer := drop (unat (0 :: byte) * 256
               + unat (0 :: byte)) [0]\<rparr>, [], [])"
    by (rule handleIncomingData_short_frame)
       (simp_all add: connect_resolved_def constructor_def)
  then show ?thesis
    by (simp add: connect_resolved_def constructor_def)
qed

text \<open>
  C8 (oversized payloads). On a connected manager, a send whose payload is longer than
  65526 bytes, so that header and payload exceed 65535 bytes, is rejected with the
  range error of the length-prefix write before anything is written to the socket:
  nothing is emitted or written, truncated or not, and the manager is unchanged.
\<close>

theorem payload_too_large:
  assumes "isConnected t" and "hasSocket t" and "length payload > 65526"
  shows "sendMessage t ty payload ident now generated = (Inl RangeError, t, [])"
  using assms
  by (simp add: sendMessage_def writeUInt8_def writeUInt32BE_def writeUInt16BE_def
        Let_def)

theorem payload_too_large_witness:
  "sendMessage (fst (connect_resolved constructor)) 1 (replicate 65527 0) None 5000 99
     = (Inl RangeError, fst (connect_resolved constructor), [])"
  using payload_too_large[where t = "fst (connect_resolved constructor)"
          and payload = "replicate 65527 0" and ty = 1 and ident = None
          and now = 5000 and generated = 99]
  by (simp add: connect_resolved_def constructor_def)

section \<open>Claims about the session layer\<close>

text \<open>
  C1 (envelope round trip) fails on the code. Whenever the runtime's cipher decrypts
  what it encrypted and its JSON parser reads back what its printer wrote,
  \<open>decryptMessage\<close> of an envelope that \<open>encryptMessage\<close> produced for the same
  peer, on the store that \<open>encryptMessage\<close> left, does not return the plaintext: it
  throws a \<open>TypeError\<close>. The message key is a Buffer when the envelope is
  serialised, comes back from \<open>JSON.parse\<close> as the object \<open>{type: 'Buffer', data:
  [...]}\<close>, and \<open>createDecipher\<close> in \<open>decryptContent\<close> refuses it as a password.
\<close>

theorem envelope_round_trip_fails:
  assumes "\<forall>k t. aes_decrypt P k (aes_encrypt P k t) = Some t"
    and "\<forall>d. json_value P (json_text P d) = Some d"
    and "encryptMessage P store recipient message messageType r = (e, store')"
  shows "decryptMessage P store' recipient e = Inl TypeError"
proof -
  from assms(3) obtain s where s: "store' recipient = Some s"
    and e: "e = encryptEnvelope P
               (VObj [(''type'', VStr messageType),
                      (''recipientId'', VStr recipient),
                      (''messageId'', VNum (int (newMessageId r))),
                      (''timestamp'', VNum (int (envelopeCreated r))),
                      (''encryptedContent'',
                       encryptContent P message (newMessageKey r) (contentIv r)),
                      (''messageKey'', VBuffer (newMessageKey r)),
                      (''sessionId'', VStr (sessionId s))])
               s (envelopeIv r)"
    by (rule encryptMessage_session)
  show ?thesis
    unfolding decryptMessage_def getSession_def s e
    by (simp add: decryptEnvelope_encryptEnvelope[OF assms(1,2)] decryptContent_def
          encryptContent_def property_def Let_def)
qed

theorem envelope_round_trip_fails_witness:
  "decryptMessage stand_in sample_store ''+1234567891'' sample_envelope = Inl TypeError"
proof -
  have enc: "encryptMessage stand_in Map.empty ''+1234567891'' (VStr ''hi'') ''text''
               sample_entropy = (sample_envelope, sample_store)"
    by (simp add: sample_envelope_def sample_store_def)
  have dec: "\<forall>k t. aes_decrypt stand_in k (aes_encrypt stand_in k t) = Some t"
    and parse: "\<forall>d. json_value stand_in (json_text stand_in d) = Some d"
    by (simp_all add: stand_in_decrypts stand_in_parses)
  from dec parse enc show ?thesis
    by (rule envelope_round_trip_fails)
qed

text \<open>
  C2 (integrity rejection). For every envelope that \<open>encryptMessage\<close> produces for a
  peer, flipping any bit of any character of its \<open>signature\<close> makes \<open>decryptMessage\<close>
  fail with the error \<open>Invalid message signature\<close>; so does flipping any bit of its
  \<open>ciphertext\<close>, as long as the MAC of the flipped ciphertext is not the MAC of the
  original (no collision of the HMAC on this pair). The MAC is checked before anything
  is decrypted: the outcome is the same whatever the decipher and the JSON parser
  would do, so no plaintext, right or wrong, is returned.
\<close>

theorem integrity_rejection:
  assumes "encryptMessage P store peer message messageType r = (e, store')"
    and "store' peer = Some s"
    and "b < 8"
  shows "(p < length (signature e) \<longrightarrow>
            decryptMessage (P\<lparr>aes_decrypt := d, json_value := q\<rparr>) store' peer
              (e\<lparr>signature := flip_bit_at p b (signature e)\<rparr>)
              = Inl (Error ''Invalid message signature''))
         \<and> (p < length (ciphertext e)
              \<and> hmac_sha256 P (chainKey s) (flip_bit_at p b (ciphertext e))
                  \<noteq> hmac_sha256 P (chainKey s) (ciphertext e) \<longrightarrow>
            decryptMessage (P\<lparr>aes_decrypt := d, json_value := q\<rparr>) store' peer
              (e\<lparr>ciphertext := flip_bit_at p b (ciphertext e)\<rparr>)
              = Inl (Error ''Invalid message signature''))"
proof -
  let ?P = "P\<lparr>aes_decrypt := d, json_value := q\<rparr>"
  from assms(1) obtain s' where "store' peer = Some s'"
    and "\<exists>envelope. e = encryptEnvelope P envelope s' (envelopeIv r)"
    by (rule encryptMessage_session) blast
  with assms(2) obtain envelope where e: "e = encryptEnvelope P envelope s (envelopeIv r)"
    by auto
  have signed: "signature e = hmac_sha256 P (chainKey s) (ciphertext e)"
    unfolding e by (rule encryptEnvelope_signed)
  have mac: "hmac_sha256 ?P = hmac_sha256 P"
    by simp
  show ?thesis
  proof (intro conjI impI)
    assume "p < length (signature e)"
    then have "flip_bit_at p b (signature e) \<noteq> signature e"
      using assms(3) by (rule flip_bit_at_neq)
    then have "hmac_sha256 ?P (chainKey s) (ciphertext (e\<lparr>signature := flip_bit_at p b (signature e)\<rparr>))
                 \<noteq> signature (e\<lparr>signature := flip_bit_at p b (signature e)\<rparr>)"
      using signed by (simp only: mac) simp
    with assms(2) show "decryptMessage ?P store' peer
        (e\<lparr>signature := flip_bit_at p b (signature e)\<rparr>)
          = Inl (Error ''Invalid message signature'')"
      by (rule decryptMessage_bad_signature)
  next
    assume "p < length (ciphertext e)
              \<and> hmac_sha256 P (chainKey s) (flip_bit_at p b (ciphertext e))
                  \<noteq> hmac_sha256 P (chainKey s) (ciphertext e)"
    then have "hmac_sha256 ?P (chainKey s) (ciphertext (e\<lparr>ciphertext := flip_bit_at p b (ciphertext e)\<rparr>))
                 \<noteq> signature (e\<lparr>ciphertext := flip_bit_at p b (ciphertext e)\<rparr>)"
      using signed by (simp only: mac) simp
    with assms(2) show "decryptMessage ?P store' peer
        (e\<lparr>ciphertext := flip_bit_at p b (ciphertext e)\<rparr>)
          = Inl (Error ''Invalid message signature'')"
      by (rule decryptMessage_bad_signature)
  qed
qed

theorem integrity_rejection_witness:
  "decryptMessage stand_in sample_store ''+1234567891''
     (sample_envelope\<lparr>signature := flip_bit_at 0 0 (signature sample_envelope)\<rparr>)
     = Inl (Error ''Invalid message signature'')
   \<and> decryptMessage stand_in sample_store ''+1234567891''
     (sample_envelope\<lparr>ciphertext := flip_bit_at 0 0 (ciphertext sample_envelope)\<rparr>)
     = Inl (Error ''Invalid message signature'')"
proof -
  let ?s = "createSession ''+1234567891'' sample_entropy"
  have enc: "encryptMessage stand_in Map.empty ''+1234567891'' (VStr ''hi'') ''text''
               sample_entropy = (sample_envelope, sample_store)"
    by (simp add: sample_envelope_def sample_store_def)
  have stored: "sample_store ''+1234567891'' = Some ?s"
    by (simp add: sample_store_def encryptMessage_def getOrCreateSession_def Let_def)
  have bit: "(0 :: nat) < 8"
    by simp
  have same: "stand_in\<lparr>aes_decrypt := aes_decrypt stand_in,
                         json_value := json_value stand_in\<rparr> = stand_in"
    by simp
  have sig: "0 < length (signature sample_envelope)"
    and ct: "0 < length (ciphertext sample_envelope)"
    by (simp_all add: sample_envelope_def encryptMessage_def encryptEnvelope_def
          getOrCreateSession_def stand_in_def Let_def)
  have "flip_bit_at 0 0 (ciphertext sample_envelope) \<noteq> ciphertext sample_envelope"
    using ct bit by (rule flip_bit_at_neq)
  then have mac: "hmac_sha256 stand_in (chainKey ?s)
                    (flip_bit_at 0 0 (ciphertext sample_envelope))
                  \<noteq> hmac_sha256 stand_in (chainKey ?s) (ciphertext sample_envelope)"
    by (simp add: stand_in_def)
  from integrity_rejection[OF enc stored bit, where p = 0
      and d = "aes_decrypt stand_in" and q = "json_value stand_in"]
  show ?thesis
    unfolding same using sig ct mac by blast
qed

text \<open>
  C6 (message counter), as the code has it. For every peer with an established
  session, \<open>encryptMessage\<close> leaves the session as it is: after any number of calls
  its \<open>messageCount\<close> is what it was before, and \<open>createSession\<close> sets it to 0, so
  the counter of a session stays 0.
\<close>

theorem message_count_unchanged:
  assumes "store peer = Some s"
  shows "map_option messageCount (snd (encryptMessages P store peer calls) peer)
           = Some (messageCount s)
         \<and> messageCount (createSession peer r) = 0"
  using encryptMessages_existing[where store = store and recipient = peer and s = s
          and P = P and calls = calls] assms
  by (simp add: createSession_def)

theorem message_count_unchanged_witness:
  "map_option messageCount
     (snd (encryptMessages stand_in sample_store ''+1234567891''
             [(VStr ''a'', ''text'', sample_entropy), (VStr ''b'', ''text'', sample_entropy)])
        ''+1234567891'')
     = Some 0
   \<and> messageCount (createSession ''+1234567891'' sample_entropy) = 0"
proof -
  have stored: "sample_store ''+1234567891''
                  = Some (createSession ''+1234567891'' sample_entropy)"
    by (simp add: sample_store_def encryptMessage_def getOrCreateSession_def Let_def)
  have zero: "messageCount (createSession ''+1234567891'' sample_entropy) = 0"
    by (simp add: createSession_def)
  from message_count_unchanged[where store = sample_store and peer = "''+1234567891''"
      and s = "createSession ''+1234567891'' sample_entropy"
      and P = stand_in and r = sample_entropy
      and calls = "[(VStr ''a'', ''text'', sample_entropy),
                    (VStr ''b'', ''text'', sample_entropy)]"]
    stored
  show ?thesis
    unfolding zero by blast
qed

text \<open>
  C6 as the specification states it fails: after the first \<open>encryptMessage\<close> call for a
  peer, which creates the session with \<open>messageCount\<close> 0, the stored counter is 0 and
  not 1.
\<close>

theorem message_counter_counterexample:
  "map_option messageCount (sample_store ''+1234567891'') = Some 0
   \<and> map_option messageCount (sample_store ''+1234567891'') \<noteq> Some 1"
  by (simp add: sample_store_def encryptMessage_def getOrCreateSession_def
        createSession_def Let_def)

text \<open>
  C9 (the iv is not read). For every store, sender and envelope, replacing the
  envelope's \<open>iv\<close> by any other value gives the same outcome of \<open>decryptMessage\<close> and
  of \<open>decryptEnvelope\<close>, the same plaintext or the same error; and \<open>decryptContent\<close>
  gives the same outcome whatever the \<open>iv\<close> of the encrypted content is.
\<close>

theorem decrypt_ignores_iv:
  "decryptMessage P store sender (e\<lparr>iv := v\<rparr>) = decryptMessage P store sender e
   \<and> decryptEnvelope P (e\<lparr>iv := v\<rparr>) s = decryptEnvelope P e s
   \<and> decryptContent P (Some (JObj [(''iv'', x), (''ciphertext'', c)])) k
       = decryptContent P (Some (JObj [(''iv'', y), (''ciphertext'', c)])) k"
  using decryptContent_iv[of P x c k y]
  by (simp add: decryptMessage_def decryptEnvelope_iv cong: option.case_cong)

text \<open>
  C10 (deterministic envelopes). For every envelope value and session, two calls of
  \<open>encryptEnvelope\<close> that differ only in the random bytes drawn for the \<open>iv\<close> produce
  the same \<open>ciphertext\<close> and the same \<open>signature\<close>; the results differ in the \<open>iv\<close>
  field alone.
\<close>

theorem encryptEnvelope_deterministic:
  "ciphertext (encryptEnvelope P envelope s iv1) = ciphertext (encryptEnvelope P envelope s iv2)
   \<and> signature (encryptEnvelope P envelope s iv1) = signature (encryptEnvelope P envelope s iv2)
   \<and> encryptEnvelope P envelope s iv2 = (encryptEnvelope P envelope s iv1)\<lparr>iv := base64 P iv2\<rparr>"
  by (simp add: encryptEnvelope_def Let_def)


end
